theory Spec2Isabelle
  imports Complex_Main "HOL-Library.Char_ord" "HOL-Library.List_Lexorder" "HOL-Library.Multiset"
    "HOL-Library.Monad_Syntax"
begin

section \<open>Values read from the settings store\<close>

text \<open>
  The settings store holds JSON values, and \<open>configuration.get\<close> hands them to the
  readers unchecked: the type argument of \<open>get<T>\<close> is an assertion, not a test. A number
  is an IEEE double: a rational, an infinity (the JSON text \<open>1e999\<close>) or NaN. Every finite
  double is a rational, so the rationals cover all the finite numbers the code can see.
  An object is its list of entries in insertion order; \<open>JUndefined\<close> is what a read of an
  absent value gives.
\<close>

datatype number = Finite rat | PosInfinity | NegInfinity | NaN

datatype jsvalue =
    JUndefined
  | JNull
  | JBoolean bool
  | JNumber number
  | JString string
  | JArray "jsvalue list"
  | JObject "(string \<times> jsvalue) list"

text \<open>
  \<open>TypeError\<close> is the exception JavaScript raises for a call of a method the value does
  not have. It is the only exception the code of this file can raise.
\<close>

datatype error = TypeError

text \<open>The values that a JavaScript condition, and so the left operand of \<open>&&\<close>, takes as false.\<close>

fun falsy :: "jsvalue \<Rightarrow> bool" where
  "falsy JUndefined = True"
| "falsy JNull = True"
| "falsy (JBoolean b) = (\<not> b)"
| "falsy (JNumber n) = (n = Finite 0 \<or> n = NaN)"
| "falsy (JString s) = (s = [])"
| "falsy (JArray xs) = False"
| "falsy (JObject kvs) = False"

text \<open>
  \<open>String.prototype.toLowerCase\<close> on the letters A to Z; every other character is left as
  it is. (No character outside A to Z has a lower-case form among the letters of the four
  level names, so the switch of \<open>fromString\<close> cannot tell this from the full Unicode
  mapping.) \<open>toUpperChar\<close> is the inverse direction, used to say what "written in any letter
  case" means.
\<close>

definition toLowerChar :: "char \<Rightarrow> char" where
  "toLowerChar c =
     (case map_of (zip ''ABCDEFGHIJKLMNOPQRSTUVWXYZ'' ''abcdefghijklmnopqrstuvwxyz'') c of
        Some l \<Rightarrow> l
      | None \<Rightarrow> c)"

definition toUpperChar :: "char \<Rightarrow> char" where
  "toUpperChar c =
     (case map_of (zip ''abcdefghijklmnopqrstuvwxyz'' ''ABCDEFGHIJKLMNOPQRSTUVWXYZ'') c of
        Some u \<Rightarrow> u
      | None \<Rightarrow> c)"

definition toLowerCase :: "string \<Rightarrow> string" where
  "toLowerCase s = map toLowerChar s"

section \<open>TsServerLogLevel\<close>

datatype TsServerLogLevel = Off | Normal | Terse | Verbose

text \<open>
  \<open>fromString\<close>: \<open>switch (value && value.toLowerCase())\<close>. A falsy \<open>value\<close> is itself the
  switch operand and matches no case label, so the default branch returns \<open>Off\<close>. A truthy
  string is lower-cased. A truthy value that is not a string has no \<open>toLowerCase\<close> method
  and the call raises a TypeError.
\<close>

definition fromString :: "jsvalue \<Rightarrow> error + TsServerLogLevel" where
  "fromString value =
     (if falsy value then Inr Off
      else case value of
        JString s \<Rightarrow>
          (let l = toLowerCase s in
           if l = ''normal'' then Inr Normal
           else if l = ''terse'' then Inr Terse
           else if l = ''verbose'' then Inr Verbose
           else Inr Off)
      | _ \<Rightarrow> Inl TypeError)"

fun toString :: "TsServerLogLevel \<Rightarrow> string" where
  "toString Normal = ''normal''"
| "toString Terse = ''terse''"
| "toString Verbose = ''verbose''"
| "toString Off = ''off''"

datatype SeparateSyntaxServerConfiguration = Disabled | Enabled

section \<open>The layered settings provider\<close>

text \<open>
  Modelled from the spec: the layered settings provider (\<open>vscode.WorkspaceConfiguration\<close>),
  which the source file uses and does not define. Per string key it holds a default-scope,
  a global-scope and a workspace-scope value, each of which may be absent. \<open>get\<close> reads the
  merged value, with precedence default < global < workspace, and returns the default of
  the call when the merged value is undefined; \<open>inspect\<close> returns the three scope values
  independently of each other.
\<close>

record WorkspaceConfiguration =
  defaultValues :: "string \<rightharpoonup> jsvalue"
  globalValues :: "string \<rightharpoonup> jsvalue"
  workspaceValues :: "string \<rightharpoonup> jsvalue"

definition scopeValue :: "(string \<rightharpoonup> jsvalue) \<Rightarrow> string \<Rightarrow> jsvalue" where
  "scopeValue m key = (case m key of None \<Rightarrow> JUndefined | Some v \<Rightarrow> v)"

definition effectiveValue :: "WorkspaceConfiguration \<Rightarrow> string \<Rightarrow> jsvalue" where
  "effectiveValue c key =
     (if scopeValue (workspaceValues c) key \<noteq> JUndefined then scopeValue (workspaceValues c) key
      else if scopeValue (globalValues c) key \<noteq> JUndefined then scopeValue (globalValues c) key
      else scopeValue (defaultValues c) key)"

text \<open>\<open>configuration.get(key)\<close> and \<open>configuration.get(key, defaultValue)\<close>, the default \<open>dflt\<close>.\<close>

definition get_value :: "WorkspaceConfiguration \<Rightarrow> string \<Rightarrow> jsvalue" where
  "get_value c key = effectiveValue c key"

definition get_or :: "WorkspaceConfiguration \<Rightarrow> string \<Rightarrow> jsvalue \<Rightarrow> jsvalue" where
  "get_or c key dflt =
     (if effectiveValue c key = JUndefined then dflt else effectiveValue c key)"

record inspection =
  defaultValue :: jsvalue
  globalValue :: jsvalue
  workspaceValue :: jsvalue

definition inspect :: "WorkspaceConfiguration \<Rightarrow> string \<Rightarrow> inspection option" where
  "inspect c key =
     Some \<lparr>defaultValue = scopeValue (defaultValues c) key,
           globalValue = scopeValue (globalValues c) key,
           workspaceValue = scopeValue (workspaceValues c) key\<rparr>"

text \<open>The setting is absent: no scope holds a value for the key.\<close>

definition absent :: "WorkspaceConfiguration \<Rightarrow> string \<Rightarrow> bool" where
  "absent c key =
     (defaultValues c key = None \<and> globalValues c key = None \<and> workspaceValues c key = None)"

section \<open>Readers with a guard\<close>

definition readTsServerLogLevel :: "WorkspaceConfiguration \<Rightarrow> error + TsServerLogLevel" where
  "readTsServerLogLevel configuration =
     (let setting = get_or configuration ''typescript.tsserver.log'' (JString ''off'')
      in fromString setting)"

definition readUseSeparateSyntaxServer ::
  "WorkspaceConfiguration \<Rightarrow> SeparateSyntaxServerConfiguration" where
  "readUseSeparateSyntaxServer configuration =
     (let value = get_or configuration ''typescript.tsserver.useSeparateSyntaxServer''
                    (JBoolean True)
      in if value = JBoolean True then Enabled else Disabled)"

text \<open>
  \<open>Number.isSafeInteger\<close>: the value is a number, finite, without a fractional part, and of
  absolute value at most \<open>2^53 - 1\<close>.
\<close>

fun isSafeInteger :: "jsvalue \<Rightarrow> bool" where
  "isSafeInteger (JNumber (Finite q)) = (frac q = 0 \<and> \<bar>q\<bar> \<le> 9007199254740991)"
| "isSafeInteger _ = False"

text \<open>\<open>Math.max\<close> of two numbers.\<close>

fun math_max :: "number \<Rightarrow> number \<Rightarrow> number" where
  "math_max NaN b = NaN"
| "math_max a NaN = NaN"
| "math_max PosInfinity b = PosInfinity"
| "math_max a PosInfinity = PosInfinity"
| "math_max NegInfinity b = b"
| "math_max a NegInfinity = a"
| "math_max (Finite a) (Finite b) = Finite (max a b)"

text \<open>
  \<open>readMaxTsServerMemory\<close>. A safe integer is a number, so in the second branch the value
  read is a \<open>JNumber\<close>; the last case of the \<open>case\<close> is never taken.
\<close>

definition readMaxTsServerMemory :: "WorkspaceConfiguration \<Rightarrow> number" where
  "readMaxTsServerMemory configuration =
     (let defaultMaxMemory = 3072;
          minimumMaxMemory = 128;
          memoryInMB = get_or configuration ''typescript.tsserver.maxTsServerMemory''
                         (JNumber (Finite defaultMaxMemory))
      in if \<not> isSafeInteger memoryInMB then Finite defaultMaxMemory
         else case memoryInMB of
                JNumber n \<Rightarrow> math_max n (Finite minimumMaxMemory)
              | _ \<Rightarrow> Finite defaultMaxMemory)"

section \<open>The tsdk paths\<close>

text \<open>
  The platform is what the code reads from Node: \<open>path.sep\<close>, \<open>path.join\<close> (called with two
  arguments) and \<open>os.homedir()\<close>.
\<close>

record platform =
  path_sep :: string
  path_join :: "string \<Rightarrow> string \<Rightarrow> string"
  os_homedir :: string

definition startsWith :: "string \<Rightarrow> string \<Rightarrow> bool" where
  "startsWith s pre = (take (length pre) s = pre)"

definition slice :: "string \<Rightarrow> nat \<Rightarrow> string" where
  "slice s n = drop n s"

text \<open>The loop of \<open>fixPathPrefixes\<close> over \<open>pathPrefixes\<close>: the first prefix that matches returns.\<close>

fun fixPathPrefixes_loop :: "platform \<Rightarrow> string list \<Rightarrow> string \<Rightarrow> string" where
  "fixPathPrefixes_loop p [] inspectValue = inspectValue"
| "fixPathPrefixes_loop p (pathPrefix # rest) inspectValue =
     (if startsWith inspectValue pathPrefix
      then path_join p (os_homedir p) (slice inspectValue (length pathPrefix))
      else fixPathPrefixes_loop p rest inspectValue)"

definition fixPathPrefixes :: "platform \<Rightarrow> string \<Rightarrow> string" where
  "fixPathPrefixes p inspectValue =
     (let pathPrefixes = [''~'' @ path_sep p]
      in fixPathPrefixes_loop p pathPrefixes inspectValue)"

definition extractGlobalTsdk :: "platform \<Rightarrow> WorkspaceConfiguration \<Rightarrow> string option" where
  "extractGlobalTsdk p configuration =
     (case inspect configuration ''typescript.tsdk'' of
        None \<Rightarrow> None
      | Some i \<Rightarrow>
          (case globalValue i of
             JString s \<Rightarrow> Some (fixPathPrefixes p s)
           | _ \<Rightarrow> None))"

definition extractLocalTsdk :: "platform \<Rightarrow> WorkspaceConfiguration \<Rightarrow> string option" where
  "extractLocalTsdk p configuration =
     (case inspect configuration ''typescript.tsdk'' of
        None \<Rightarrow> None
      | Some i \<Rightarrow>
          (case workspaceValue i of
             JString s \<Rightarrow> Some (fixPathPrefixes p s)
           | _ \<Rightarrow> None))"

subsection \<open>The POSIX platform\<close>

text \<open>
  Modelled from the spec: the platform join operation (Node's \<open>path.join\<close> on POSIX), which
  is not part of the source. It joins the non-empty arguments with the separator and
  normalises the result: empty and \<open>.\<close> segments are dropped, a \<open>..\<close> segment removes the
  segment before it (above the root of an absolute path it is dropped, at the start of a
  relative path it is kept), a trailing separator is preserved, and the empty result is
  \<open>.\<close>.
\<close>

fun splitSegments :: "string \<Rightarrow> string list" where
  "splitSegments [] = [[]]"
| "splitSegments (c # cs) =
     (if c = CHR ''/'' then [] # splitSegments cs
      else case splitSegments cs of
             seg # segs \<Rightarrow> (c # seg) # segs
           | [] \<Rightarrow> [[c]])"

text \<open>The segments kept so far are held in reverse, the last one first.\<close>

fun normalizeSegments :: "bool \<Rightarrow> string list \<Rightarrow> string list \<Rightarrow> string list" where
  "normalizeSegments allowAboveRoot res [] = rev res"
| "normalizeSegments allowAboveRoot res (seg # segs) =
     (if seg = [] \<or> seg = ''.'' then normalizeSegments allowAboveRoot res segs
      else if seg = ''..'' then
        (if res \<noteq> [] \<and> hd res \<noteq> ''..'' then normalizeSegments allowAboveRoot (tl res) segs
         else if allowAboveRoot then normalizeSegments allowAboveRoot (''..'' # res) segs
         else normalizeSegments allowAboveRoot res segs)
      else normalizeSegments allowAboveRoot (seg # res) segs)"

fun joinSegments :: "string list \<Rightarrow> string" where
  "joinSegments [] = []"
| "joinSegments [seg] = seg"
| "joinSegments (seg # segs) = seg @ ''/'' @ joinSegments segs"

definition isAbsolute :: "string \<Rightarrow> bool" where
  "isAbsolute path = (case path of [] \<Rightarrow> False | c # cs \<Rightarrow> c = CHR ''/'')"

definition posix_normalize :: "string \<Rightarrow> string" where
  "posix_normalize path =
     (if path = [] then ''.''
      else
        let trailingSeparator = (last path = CHR ''/'');
            body = joinSegments (normalizeSegments (\<not> isAbsolute path) [] (splitSegments path))
        in if body = [] then
             (if isAbsolute path then ''/'' else if trailingSeparator then ''./'' else ''.'')
           else (if isAbsolute path then ''/'' else []) @ body
                @ (if trailingSeparator then ''/'' else []))"

definition posix_join :: "string \<Rightarrow> string \<Rightarrow> string" where
  "posix_join a b =
     (let joined = (if a = [] then b else if b = [] then a else a @ ''/'' @ b)
      in if joined = [] then ''.'' else posix_normalize joined)"

definition posix :: "string \<Rightarrow> platform" where
  "posix home = \<lparr>path_sep = ''/'', path_join = posix_join, os_homedir = home\<rparr>"

section \<open>The snapshot\<close>

text \<open>
  The class \<open>TypeScriptServiceConfiguration\<close> with the field types it declares, which
  are the types of the two arguments of \<open>isEqualTo\<close>: \<open>string | null\<close> is a
  \<open>string option\<close> (\<open>None\<close> for null), the union \<open>'auto' | 'on' | 'off' | undefined\<close> a
  \<open>string option\<close> (\<open>None\<close> for undefined), \<open>protocol.WatchOptions | undefined\<close> an object
  value or \<open>JUndefined\<close>. The field \<open>locale\<close> is named \<open>tsLocale\<close> here. What the
  constructor builds, whatever the types of the stored values, is the record
  \<open>constructed\<close> further down.
\<close>

record TypeScriptServiceConfiguration =
  tsLocale :: "string option"
  globalTsdk :: "string option"
  localTsdk :: "string option"
  npmLocation :: "string option"
  tsServerLogLevel :: TsServerLogLevel
  tsServerPluginPaths :: "string list"
  checkJs :: bool
  experimentalDecorators :: bool
  implicitStrictNullChecks :: bool
  implicitStrictFunctionTypes :: bool
  disableAutomaticTypeAcquisition :: bool
  separateSyntaxServer :: SeparateSyntaxServerConfiguration
  enableProjectDiagnostics :: bool
  maxTsServerMemory :: number
  enablePromptUseWorkspaceTsdk :: bool
  watchOptions :: jsvalue
  includePackageJsonAutoImports :: "string option"

subsection \<open>Readers that pass the stored value through\<close>

text \<open>
  Each of these readers returns what \<open>configuration.get\<close> returns. The type argument of
  \<open>get<T>\<close> asserts the type of the value and tests nothing, so a reader returns the stored
  value whatever it is: a stored string \<open>yes\<close> under the key of \<open>checkJs\<close> is what
  \<open>readCheckJs\<close> returns.
\<close>

definition readTsServerPluginPaths :: "WorkspaceConfiguration \<Rightarrow> jsvalue" where
  "readTsServerPluginPaths configuration =
     get_or configuration ''typescript.tsserver.pluginPaths'' (JArray [])"

definition readCheckJs :: "WorkspaceConfiguration \<Rightarrow> jsvalue" where
  "readCheckJs configuration =
     get_or configuration ''javascript.implicitProjectConfig.checkJs'' (JBoolean False)"

definition readExperimentalDecorators :: "WorkspaceConfiguration \<Rightarrow> jsvalue" where
  "readExperimentalDecorators configuration =
     get_or configuration ''javascript.implicitProjectConfig.experimentalDecorators''
       (JBoolean False)"

definition readImplicitStrictNullChecks :: "WorkspaceConfiguration \<Rightarrow> jsvalue" where
  "readImplicitStrictNullChecks configuration =
     get_or configuration ''js/ts.implicitProjectConfig.strictNullChecks'' (JBoolean True)"

definition readImplicitStrictFunctionTypes :: "WorkspaceConfiguration \<Rightarrow> jsvalue" where
  "readImplicitStrictFunctionTypes configuration =
     get_or configuration ''js/ts.implicitProjectConfig.strictFunctionTypes'' (JBoolean True)"

definition readNpmLocation :: "WorkspaceConfiguration \<Rightarrow> jsvalue" where
  "readNpmLocation configuration = get_or configuration ''typescript.npm'' JNull"

definition readDisableAutomaticTypeAcquisition :: "WorkspaceConfiguration \<Rightarrow> jsvalue" where
  "readDisableAutomaticTypeAcquisition configuration =
     get_or configuration ''typescript.disableAutomaticTypeAcquisition'' (JBoolean False)"

definition extractLocale :: "WorkspaceConfiguration \<Rightarrow> jsvalue" where
  "extractLocale configuration = get_or configuration ''typescript.locale'' JNull"

definition readEnableProjectDiagnostics :: "WorkspaceConfiguration \<Rightarrow> jsvalue" where
  "readEnableProjectDiagnostics configuration =
     get_or configuration ''typescript.tsserver.experimental.enableProjectDiagnostics''
       (JBoolean False)"

definition readWatchOptions :: "WorkspaceConfiguration \<Rightarrow> jsvalue" where
  "readWatchOptions configuration =
     get_value configuration ''typescript.tsserver.watchOptions''"

definition readIncludePackageJsonAutoImports :: "WorkspaceConfiguration \<Rightarrow> jsvalue" where
  "readIncludePackageJsonAutoImports configuration =
     get_value configuration ''typescript.preferences.includePackageJsonAutoImports''"

definition readEnablePromptUseWorkspaceTsdk :: "WorkspaceConfiguration \<Rightarrow> jsvalue" where
  "readEnablePromptUseWorkspaceTsdk configuration =
     get_or configuration ''typescript.enablePromptUseWorkspaceTsdk'' (JBoolean False)"

subsection \<open>The constructor\<close>

text \<open>
  The object as the constructor builds it. A field that a guarded reader fills has its
  declared type; a field that a pass-through reader fills holds the stored value, of
  whatever type. The field \<open>f\<close> of the class is \<open>this_f\<close> here.
\<close>

record constructed =
  this_locale :: jsvalue
  this_globalTsdk :: "string option"
  this_localTsdk :: "string option"
  this_npmLocation :: jsvalue
  this_tsServerLogLevel :: TsServerLogLevel
  this_tsServerPluginPaths :: jsvalue
  this_checkJs :: jsvalue
  this_experimentalDecorators :: jsvalue
  this_implicitStrictNullChecks :: jsvalue
  this_implicitStrictFunctionTypes :: jsvalue
  this_disableAutomaticTypeAcquisition :: jsvalue
  this_separateSyntaxServer :: SeparateSyntaxServerConfiguration
  this_enableProjectDiagnostics :: jsvalue
  this_maxTsServerMemory :: number
  this_enablePromptUseWorkspaceTsdk :: jsvalue
  this_watchOptions :: jsvalue
  this_includePackageJsonAutoImports :: jsvalue

text \<open>
  \<open>loadFromWorkspace\<close> runs the constructor, which fills the fields in the order written.
  The one read that can raise is \<open>readTsServerLogLevel\<close>; the reads before it change
  nothing, so its TypeError is the constructor's, and without it the object is built.
\<close>

definition loadFromWorkspace :: "platform \<Rightarrow> WorkspaceConfiguration \<Rightarrow> error + constructed" where
  "loadFromWorkspace p configuration =
     (case readTsServerLogLevel configuration of
        Inl e \<Rightarrow> Inl e
      | Inr level \<Rightarrow>
          Inr \<lparr>this_locale = extractLocale configuration,
               this_globalTsdk = extractGlobalTsdk p configuration,
               this_localTsdk = extractLocalTsdk p configuration,
               this_npmLocation = readNpmLocation configuration,
               this_tsServerLogLevel = level,
               this_tsServerPluginPaths = readTsServerPluginPaths configuration,
               this_checkJs = readCheckJs configuration,
               this_experimentalDecorators = readExperimentalDecorators configuration,
               this_implicitStrictNullChecks = readImplicitStrictNullChecks configuration,
               this_implicitStrictFunctionTypes = readImplicitStrictFunctionTypes configuration,
               this_disableAutomaticTypeAcquisition =
                 readDisableAutomaticTypeAcquisition configuration,
               this_separateSyntaxServer = readUseSeparateSyntaxServer configuration,
               this_enableProjectDiagnostics = readEnableProjectDiagnostics configuration,
               this_maxTsServerMemory = readMaxTsServerMemory configuration,
               this_enablePromptUseWorkspaceTsdk =
                 readEnablePromptUseWorkspaceTsdk configuration,
               this_watchOptions = readWatchOptions configuration,
               this_includePackageJsonAutoImports =
                 readIncludePackageJsonAutoImports configuration\<rparr>)"

subsection \<open>A constructed object at the declared types\<close>







section \<open>Equality of snapshots\<close>

text \<open>
  Modelled from the spec: \<open>arrays.equals\<close> of \<open>./arrays\<close>, which is not among the sources:
  ordered element-wise sequence equality. The lengths are equal and every element equals,
  under \<open>itemEquals\<close>, the element of the other sequence at the same index.
\<close>

definition arrays_equals :: "('a \<Rightarrow> 'a \<Rightarrow> bool) \<Rightarrow> 'a list \<Rightarrow> 'a list \<Rightarrow> bool" where
  "arrays_equals itemEquals a b =
     (length a = length b \<and> list_all (\<lambda>(x, y). itemEquals x y) (zip a b))"

text \<open>
  \<open>===\<close> on values that are not objects: the same kind and the same value, NaN equal to
  nothing. On two arrays or objects \<open>===\<close> compares references, which the values of this
  model do not have; \<open>strictEquals\<close> is never asked about them (\<open>objects_equals\<close> below
  compares them by structure, and a value is structurally equal to itself).
\<close>

fun strictEquals :: "jsvalue \<Rightarrow> jsvalue \<Rightarrow> bool" where
  "strictEquals JUndefined JUndefined = True"
| "strictEquals JNull JNull = True"
| "strictEquals (JBoolean a) (JBoolean b) = (a = b)"
| "strictEquals (JNumber a) (JNumber b) = (a \<noteq> NaN \<and> a = b)"
| "strictEquals (JString a) (JString b) = (a = b)"
| "strictEquals a b = False"

text \<open>The property read \<open>one[key]\<close>: undefined when the object has no such key.\<close>

definition property :: "(string \<times> jsvalue) list \<Rightarrow> string \<Rightarrow> jsvalue" where
  "property kvs key = (case map_of kvs key of None \<Rightarrow> JUndefined | Some v \<Rightarrow> v)"

lemma arrays_equals_cong [fundef_cong]:
  assumes "a = a'" and "b = b'"
    and "\<And>x y. x \<in> set a' \<Longrightarrow> y \<in> set b' \<Longrightarrow> f x y = g x y"
  shows "arrays_equals f a b = arrays_equals g a' b'"
proof -
  have eq: "f x y = g x y" if "(x, y) \<in> set (zip a' b')" for x y
    using that assms(3) by (meson set_zip_leftD set_zip_rightD)
  have "list_all (\<lambda>(x, y). f x y) (zip a' b') = list_all (\<lambda>(x, y). g x y) (zip a' b')"
    unfolding list_all_iff using eq by fastforce
  then show ?thesis
    using assms(1,2) by (simp add: arrays_equals_def)
qed

lemma size_property:
  "key \<in> set (map fst kvs)
   \<Longrightarrow> size (property kvs key) < Suc (size_list (size_prod (\<lambda>_. 0) size) kvs)"
proof (induction kvs)
  case Nil
  then show ?case by simp
next
  case (Cons kv kvs)
  obtain k v where kv: "kv = (k, v)" by (cases kv)
  show ?case
  proof (cases "key = k")
    case True
    then show ?thesis by (simp add: kv property_def)
  next
    case False
    with Cons.prems have "key \<in> set (map fst kvs)" by (simp add: kv)
    from Cons.IH [OF this]
    have "size (property kvs key) < Suc (size_list (size_prod (\<lambda>_. 0) size) kvs)" .
    moreover have "property (kv # kvs) key = property kvs key"
      using False by (simp add: kv property_def)
    ultimately show ?thesis by simp
  qed
qed

lemma size_member: "x \<in> set xs \<Longrightarrow> size (x :: jsvalue) < Suc (size_list size xs)"
  by (induction xs) auto

text \<open>
  Modelled from the spec: \<open>objects.equals\<close> of \<open>../utils/objects\<close>, which is not among the
  sources: deep structural equality. Two arrays are compared element by element; two
  objects have the same keys whatever their insertion order (the sorted key lists are
  equal) and structurally equal values under every key; two values that are not both
  arrays or both objects are equal when \<open>===\<close> holds of them, so undefined equals
  undefined.
\<close>

function (sequential) objects_equals :: "jsvalue \<Rightarrow> jsvalue \<Rightarrow> bool" where
  "objects_equals (JArray xs) (JArray ys) = arrays_equals objects_equals xs ys"
| "objects_equals (JObject kvs) (JObject kvs') =
     (let oneKeys = sort (map fst kvs);
          otherKeys = sort (map fst kvs')
      in if \<not> arrays_equals (=) oneKeys otherKeys then False
         else list_all (\<lambda>key. objects_equals (property kvs key) (property kvs' key)) oneKeys)"
| "objects_equals one other = strictEquals one other"
  by pat_completeness auto
termination
proof (relation "measure (\<lambda>(one, other). size one)")
  show "wf (measure (\<lambda>(one, other). size one))" by simp
next
  fix xs ys :: "jsvalue list" and x y
  assume "x \<in> set xs"
  then show "((x, y), JArray xs, JArray ys) \<in> measure (\<lambda>(one, other). size one)"
    using size_member [of x xs] by simp
next
  fix kvs kvs' :: "(string \<times> jsvalue) list" and oneKeys otherKeys key
  assume "oneKeys = sort (map fst kvs)" and "key \<in> set oneKeys"
  then show "((property kvs key, property kvs' key), JObject kvs, JObject kvs')
             \<in> measure (\<lambda>(one, other). size one)"
    using size_property [of key kvs] by simp
qed

text \<open>\<open>===\<close> on two numbers.\<close>

definition strictEqualsNumber :: "number \<Rightarrow> number \<Rightarrow> bool" where
  "strictEqualsNumber a b = (a \<noteq> NaN \<and> a = b)"

text \<open>
  \<open>isEqualTo\<close>, the conjuncts in the order of the source. On the fields of type string,
  null, boolean and enum \<open>===\<close> is equality of the values.
\<close>

definition isEqualTo ::
  "TypeScriptServiceConfiguration \<Rightarrow> TypeScriptServiceConfiguration \<Rightarrow> bool" where
  "isEqualTo this other =
     (tsLocale this = tsLocale other
      \<and> globalTsdk this = globalTsdk other
      \<and> localTsdk this = localTsdk other
      \<and> npmLocation this = npmLocation other
      \<and> tsServerLogLevel this = tsServerLogLevel other
      \<and> checkJs this = checkJs other
      \<and> experimentalDecorators this = experimentalDecorators other
      \<and> implicitStrictNullChecks this = implicitStrictNullChecks other
      \<and> implicitStrictFunctionTypes this = implicitStrictFunctionTypes other
      \<and> disableAutomaticTypeAcquisition this = disableAutomaticTypeAcquisition other
      \<and> arrays_equals (=) (tsServerPluginPaths this) (tsServerPluginPaths other)
      \<and> separateSyntaxServer this = separateSyntaxServer other
      \<and> enableProjectDiagnostics this = enableProjectDiagnostics other
      \<and> strictEqualsNumber (maxTsServerMemory this) (maxTsServerMemory other)
      \<and> objects_equals (watchOptions this) (watchOptions other)
      \<and> enablePromptUseWorkspaceTsdk this = enablePromptUseWorkspaceTsdk other
      \<and> includePackageJsonAutoImports this = includePackageJsonAutoImports other)"

subsection \<open>Equal structured values, the order of entries apart\<close>

text \<open>
  A JSON value as the settings store holds it: the keys of every object are distinct and no
  number is NaN.
\<close>

fun wf_json :: "jsvalue \<Rightarrow> bool" where
  "wf_json (JArray xs) = list_all wf_json xs"
| "wf_json (JObject kvs) = (distinct (map fst kvs) \<and> list_all (\<lambda>(k, v). wf_json v) kvs)"
| "wf_json (JNumber n) = (n \<noteq> NaN)"
| "wf_json v = True"

text \<open>
  Equality of two structured values as the spec words it, with no reference to the order
  of the entries: arrays are equal position by position; objects are equal when they have
  the same set of keys and equal values under the same key; other values are equal when
  they are the same value.
\<close>

fun json_equiv :: "jsvalue \<Rightarrow> jsvalue \<Rightarrow> bool" where
  "json_equiv (JArray xs) (JArray ys) = list_all2 json_equiv xs ys"
| "json_equiv (JObject kvs) (JObject kvs') =
     (set (map fst kvs) = set (map fst kvs')
      \<and> (\<forall>(k, v) \<in> set kvs. \<forall>(k', v') \<in> set kvs'. k = k' \<longrightarrow> json_equiv v v'))"
| "json_equiv a b = (a = b)"

text \<open>
  What every snapshot of a well-formed store satisfies: the watch options are a well-formed
  value and the memory limit is a number other than NaN.
\<close>

definition valid_snapshot :: "TypeScriptServiceConfiguration \<Rightarrow> bool" where
  "valid_snapshot a = (wf_json (watchOptions a) \<and> maxTsServerMemory a \<noteq> NaN)"

section \<open>Notions and examples for the theorems\<close>

text \<open>
  The store with no value in any scope, and the stores with one value in one scope. They
  are the inputs at which the theorems below are evaluated.
\<close>

definition emptyConfiguration :: WorkspaceConfiguration where
  "emptyConfiguration =
     \<lparr>defaultValues = Map.empty, globalValues = Map.empty, workspaceValues = Map.empty\<rparr>"

definition globalSetting :: "string \<Rightarrow> jsvalue \<Rightarrow> WorkspaceConfiguration" where
  "globalSetting key v = emptyConfiguration\<lparr>globalValues := [key \<mapsto> v]\<rparr>"

definition workspaceSetting :: "string \<Rightarrow> jsvalue \<Rightarrow> WorkspaceConfiguration" where
  "workspaceSetting key v = emptyConfiguration\<lparr>workspaceValues := [key \<mapsto> v]\<rparr>"

definition defaultSetting :: "string \<Rightarrow> jsvalue \<Rightarrow> WorkspaceConfiguration" where
  "defaultSetting key v = emptyConfiguration\<lparr>defaultValues := [key \<mapsto> v]\<rparr>"

text \<open>
  A level name written in any letter case: the string has the letters of the name, each
  either as in the name or in upper case.
\<close>

definition inAnyLetterCase :: "string \<Rightarrow> string \<Rightarrow> bool" where
  "inAnyLetterCase s name = list_all2 (\<lambda>c d. c = d \<or> c = toUpperChar d) s name"

text \<open>
  An absolute POSIX path in normal form, from its segments: \<open>/s1/s2/.../sn\<close>, and \<open>/\<close> for no
  segment. A plain segment is a name: not empty, not \<open>.\<close>, not \<open>..\<close>, and without a
  separator.
\<close>

definition plainSegment :: "string \<Rightarrow> bool" where
  "plainSegment seg = (seg \<noteq> [] \<and> seg \<noteq> ''.'' \<and> seg \<noteq> ''..'' \<and> CHR ''/'' \<notin> set seg)"

definition absolutePath :: "string list \<Rightarrow> string" where
  "absolutePath segs = ''/'' @ joinSegments segs"

text \<open>The snapshot of the store with no value in any scope: every field has its default.\<close>

definition defaultSnapshot :: TypeScriptServiceConfiguration where
  "defaultSnapshot =
     \<lparr>tsLocale = None,
      globalTsdk = None,
      localTsdk = None,
      npmLocation = None,
      tsServerLogLevel = Off,
      tsServerPluginPaths = [],
      checkJs = False,
      experimentalDecorators = False,
      implicitStrictNullChecks = True,
      implicitStrictFunctionTypes = True,
      disableAutomaticTypeAcquisition = False,
      separateSyntaxServer = Enabled,
      enableProjectDiagnostics = False,
      maxTsServerMemory = Finite 3072,
      enablePromptUseWorkspaceTsdk = False,
      watchOptions = JUndefined,
      includePackageJsonAutoImports = None\<rparr>"

text \<open>Watch options, the same with the entries in another order, and with one value changed.\<close>

definition exampleWatchOptions :: jsvalue where
  "exampleWatchOptions =
     JObject [(''watchFile'', JString ''useFsEvents''),
              (''excludeDirectories'', JArray [JString ''node_modules''])]"

definition reorderedWatchOptions :: jsvalue where
  "reorderedWatchOptions =
     JObject [(''excludeDirectories'', JArray [JString ''node_modules'']),
              (''watchFile'', JString ''useFsEvents'')]"

definition changedWatchOptions :: jsvalue where
  "changedWatchOptions =
     JObject [(''watchFile'', JString ''useFsEvents''),
              (''excludeDirectories'', JArray [JString ''dist''])]"




section \<open>Theorems\<close>

subsection \<open>Facts about the provider\<close>

lemmas fixture_defs =
  emptyConfiguration_def globalSetting_def workspaceSetting_def defaultSetting_def

lemmas provider_defs =
  scopeValue_def effectiveValue_def get_or_def get_value_def inspect_def absent_def

lemma absent_effectiveValue: "absent c key \<Longrightarrow> effectiveValue c key = JUndefined"
  by (simp add: absent_def effectiveValue_def scopeValue_def)

subsection \<open>The separate syntax server\<close>

text \<open>
  C2, as the spec states it, fails where the setting is absent: the read has the default
  \<open>true\<close>, so the store with no value for \<open>typescript.tsserver.useSeparateSyntaxServer\<close>
  resolves to \<open>Enabled\<close>, not to \<open>Disabled\<close>.
\<close>

theorem readUseSeparateSyntaxServer_absent_counterexample:
  "absent emptyConfiguration ''typescript.tsserver.useSeparateSyntaxServer''
   \<and> readUseSeparateSyntaxServer emptyConfiguration \<noteq> Disabled"
  by (simp add: readUseSeparateSyntaxServer_def provider_defs fixture_defs)

text \<open>
  C2, amended. The field is resolved from the merged value of
  \<open>typescript.tsserver.useSeparateSyntaxServer\<close>: a stored value of exactly \<open>true\<close> yields
  \<open>Enabled\<close>; an absent setting yields \<open>Enabled\<close> as well, by the default of the read; any
  other stored value yields \<open>Disabled\<close>.
\<close>

theorem readUseSeparateSyntaxServer_spec:
  "(effectiveValue c ''typescript.tsserver.useSeparateSyntaxServer'' = JBoolean True
      \<longrightarrow> readUseSeparateSyntaxServer c = Enabled)
   \<and> (absent c ''typescript.tsserver.useSeparateSyntaxServer''
      \<longrightarrow> readUseSeparateSyntaxServer c = Enabled)
   \<and> (effectiveValue c ''typescript.tsserver.useSeparateSyntaxServer'' \<noteq> JBoolean True
      \<and> effectiveValue c ''typescript.tsserver.useSeparateSyntaxServer'' \<noteq> JUndefined
      \<longrightarrow> readUseSeparateSyntaxServer c = Disabled)"
  by (simp add: readUseSeparateSyntaxServer_def get_or_def absent_effectiveValue)

theorem readUseSeparateSyntaxServer_spec_witness:
  "readUseSeparateSyntaxServer
     (globalSetting ''typescript.tsserver.useSeparateSyntaxServer'' (JBoolean True)) = Enabled
   \<and> absent emptyConfiguration ''typescript.tsserver.useSeparateSyntaxServer''
   \<and> readUseSeparateSyntaxServer emptyConfiguration = Enabled
   \<and> readUseSeparateSyntaxServer
       (workspaceSetting ''typescript.tsserver.useSeparateSyntaxServer'' (JBoolean False)) = Disabled
   \<and> readUseSeparateSyntaxServer
       (globalSetting ''typescript.tsserver.useSeparateSyntaxServer'' (JString ''true'')) = Disabled"
proof -
  have a: "effectiveValue
             (globalSetting ''typescript.tsserver.useSeparateSyntaxServer'' (JBoolean True))
             ''typescript.tsserver.useSeparateSyntaxServer'' = JBoolean True"
    by (simp add: provider_defs fixture_defs)
  have b: "absent emptyConfiguration ''typescript.tsserver.useSeparateSyntaxServer''"
    by (simp add: provider_defs fixture_defs)
  have c: "effectiveValue
             (workspaceSetting ''typescript.tsserver.useSeparateSyntaxServer'' (JBoolean False))
             ''typescript.tsserver.useSeparateSyntaxServer'' = JBoolean False"
    by (simp add: provider_defs fixture_defs)
  have d: "effectiveValue
             (globalSetting ''typescript.tsserver.useSeparateSyntaxServer'' (JString ''true''))
             ''typescript.tsserver.useSeparateSyntaxServer'' = JString ''true''"
    by (simp add: provider_defs fixture_defs)
  show ?thesis
    using a b c d
      readUseSeparateSyntaxServer_spec
        [of "globalSetting ''typescript.tsserver.useSeparateSyntaxServer'' (JBoolean True)"]
      readUseSeparateSyntaxServer_spec [of emptyConfiguration]
      readUseSeparateSyntaxServer_spec
        [of "workspaceSetting ''typescript.tsserver.useSeparateSyntaxServer'' (JBoolean False)"]
      readUseSeparateSyntaxServer_spec
        [of "globalSetting ''typescript.tsserver.useSeparateSyntaxServer'' (JString ''true'')"]
    by simp
qed

subsection \<open>The memory limit\<close>

lemma frac_zero_iff: "frac (q::rat) = 0 \<longleftrightarrow> (\<exists>n::int. q = of_int n)"
  by (metis Ints_cases Ints_of_int frac_eq_0_iff)

text \<open>A safe integer is an integer number of absolute value at most \<open>2^53 - 1\<close>.\<close>

lemma isSafeInteger_iff:
  "isSafeInteger v \<longleftrightarrow> (\<exists>n::int. \<bar>n\<bar> \<le> 9007199254740991 \<and> v = JNumber (Finite (of_int n)))"
proof
  assume "isSafeInteger v"
  then obtain q where q: "v = JNumber (Finite q)" "frac q = 0" "\<bar>q\<bar> \<le> 9007199254740991"
    by (cases v rule: isSafeInteger.cases) auto
  then obtain n :: int where n: "q = of_int n" using frac_zero_iff by blast
  with q(3) have "\<bar>of_int n :: rat\<bar> \<le> 9007199254740991" by simp
  then have "\<bar>n\<bar> \<le> 9007199254740991" by linarith
  with q(1) n show "\<exists>n::int. \<bar>n\<bar> \<le> 9007199254740991 \<and> v = JNumber (Finite (of_int n))"
    by blast
next
  assume "\<exists>n::int. \<bar>n\<bar> \<le> 9007199254740991 \<and> v = JNumber (Finite (of_int n))"
  then obtain n :: int
    where n: "\<bar>n\<bar> \<le> 9007199254740991" "v = JNumber (Finite (of_int n))" by blast
  from n(1) have "\<bar>of_int n :: rat\<bar> \<le> 9007199254740991" by linarith
  with n(2) show "isSafeInteger v" by simp
qed

lemma readMaxTsServerMemory_safe:
  assumes "effectiveValue c ''typescript.tsserver.maxTsServerMemory'' = JNumber (Finite (of_int n))"
    and "\<bar>n\<bar> \<le> 9007199254740991"
  shows "readMaxTsServerMemory c = Finite (of_int (max n 128))"
proof -
  have safe: "isSafeInteger (JNumber (Finite (of_int n)))"
    using assms(2) isSafeInteger_iff by blast
  have "get_or c ''typescript.tsserver.maxTsServerMemory'' (JNumber (Finite 3072))
        = JNumber (Finite (of_int n))"
    using assms(1) by (simp add: get_or_def)
  then have "readMaxTsServerMemory c = math_max (Finite (of_int n)) (Finite 128)"
    using safe by (simp add: readMaxTsServerMemory_def del: isSafeInteger.simps)
  also have "\<dots> = Finite (max (of_int n) 128)" by simp
  also have "max (of_int n) (128 :: rat) = of_int (max n 128)" by (simp add: max_def)
  finally show ?thesis .
qed

lemma readMaxTsServerMemory_default:
  assumes "\<not> isSafeInteger (effectiveValue c ''typescript.tsserver.maxTsServerMemory'')"
  shows "readMaxTsServerMemory c = Finite 3072"
proof (cases "effectiveValue c ''typescript.tsserver.maxTsServerMemory'' = JUndefined")
  case True
  then have "get_or c ''typescript.tsserver.maxTsServerMemory'' (JNumber (Finite 3072))
             = JNumber (Finite 3072)"
    by (simp add: get_or_def)
  then show ?thesis by (simp add: readMaxTsServerMemory_def)
next
  case False
  then have "get_or c ''typescript.tsserver.maxTsServerMemory'' (JNumber (Finite 3072))
             = effectiveValue c ''typescript.tsserver.maxTsServerMemory''"
    by (simp add: get_or_def)
  then show ?thesis using assms by (simp add: readMaxTsServerMemory_def)
qed

lemma readMaxTsServerMemory_integer:
  "\<exists>n::int. 128 \<le> n \<and> readMaxTsServerMemory c = Finite (of_int n)"
proof (cases "isSafeInteger (effectiveValue c ''typescript.tsserver.maxTsServerMemory'')")
  case True
  then obtain n :: int where n: "\<bar>n\<bar> \<le> 9007199254740991"
    "effectiveValue c ''typescript.tsserver.maxTsServerMemory'' = JNumber (Finite (of_int n))"
    using isSafeInteger_iff by blast
  have "readMaxTsServerMemory c = Finite (of_int (max n 128))"
    using readMaxTsServerMemory_safe [OF n(2) n(1)] .
  moreover have "128 \<le> max n 128" by simp
  ultimately show ?thesis by blast
next
  case False
  then have "readMaxTsServerMemory c = Finite (of_int 3072)"
    using readMaxTsServerMemory_default by simp
  then show ?thesis by (intro exI [of _ 3072]) simp
qed

text \<open>
  C3. Let \<open>raw\<close> be the stored value of \<open>typescript.tsserver.maxTsServerMemory\<close> (undefined
  when the setting is absent). If \<open>raw\<close> is a safe integer \<open>n\<close>, an integer number with
  \<open>|n| \<le> 2^53 - 1\<close>, the resolved limit is \<open>max n 128\<close>; if it is anything else (absent, a
  string, a number with a fraction, an integer out of the safe range, an infinity), the
  resolved limit is the default 3072. So the resolved limit is always an integer of at
  least 128, and a safe integer of 128 or more is kept as it is, however large: there is no
  upper clamp.
\<close>

theorem readMaxTsServerMemory_spec:
  "(\<forall>n::int. \<bar>n\<bar> \<le> 9007199254740991
       \<and> effectiveValue c ''typescript.tsserver.maxTsServerMemory'' = JNumber (Finite (of_int n))
       \<longrightarrow> readMaxTsServerMemory c = Finite (of_int (max n 128)))
   \<and> ((\<nexists>n::int. \<bar>n\<bar> \<le> 9007199254740991
          \<and> effectiveValue c ''typescript.tsserver.maxTsServerMemory'' = JNumber (Finite (of_int n)))
       \<longrightarrow> readMaxTsServerMemory c = Finite 3072)
   \<and> (absent c ''typescript.tsserver.maxTsServerMemory'' \<longrightarrow> readMaxTsServerMemory c = Finite 3072)
   \<and> (\<exists>n::int. 128 \<le> n \<and> readMaxTsServerMemory c = Finite (of_int n))
   \<and> (\<forall>n::int. 128 \<le> n \<and> n \<le> 9007199254740991
       \<and> effectiveValue c ''typescript.tsserver.maxTsServerMemory'' = JNumber (Finite (of_int n))
       \<longrightarrow> readMaxTsServerMemory c = Finite (of_int n))"
proof (intro conjI allI impI)
  fix n :: int
  assume "\<bar>n\<bar> \<le> 9007199254740991
    \<and> effectiveValue c ''typescript.tsserver.maxTsServerMemory'' = JNumber (Finite (of_int n))"
  then show "readMaxTsServerMemory c = Finite (of_int (max n 128))"
    using readMaxTsServerMemory_safe by blast
next
  assume "\<nexists>n::int. \<bar>n\<bar> \<le> 9007199254740991
    \<and> effectiveValue c ''typescript.tsserver.maxTsServerMemory'' = JNumber (Finite (of_int n))"
  then have "\<not> isSafeInteger (effectiveValue c ''typescript.tsserver.maxTsServerMemory'')"
    using isSafeInteger_iff by blast
  then show "readMaxTsServerMemory c = Finite 3072"
    by (rule readMaxTsServerMemory_default)
next
  assume "absent c ''typescript.tsserver.maxTsServerMemory''"
  then have "effectiveValue c ''typescript.tsserver.maxTsServerMemory'' = JUndefined"
    by (rule absent_effectiveValue)
  then have "\<not> isSafeInteger (effectiveValue c ''typescript.tsserver.maxTsServerMemory'')"
    by simp
  then show "readMaxTsServerMemory c = Finite 3072"
    by (rule readMaxTsServerMemory_default)
next
  show "\<exists>n::int. 128 \<le> n \<and> readMaxTsServerMemory c = Finite (of_int n)"
    by (rule readMaxTsServerMemory_integer)
next
  fix n :: int
  assume h: "128 \<le> n \<and> n \<le> 9007199254740991
    \<and> effectiveValue c ''typescript.tsserver.maxTsServerMemory'' = JNumber (Finite (of_int n))"
  then have "\<bar>n\<bar> \<le> 9007199254740991" by linarith
  with h have "readMaxTsServerMemory c = Finite (of_int (max n 128))"
    using readMaxTsServerMemory_safe by blast
  moreover have "max n 128 = n" using h by simp
  ultimately show "readMaxTsServerMemory c = Finite (of_int n)" by simp
qed

theorem readMaxTsServerMemory_spec_witness:
  "readMaxTsServerMemory
     (globalSetting ''typescript.tsserver.maxTsServerMemory'' (JNumber (Finite 50))) = Finite 128
   \<and> readMaxTsServerMemory
       (globalSetting ''typescript.tsserver.maxTsServerMemory'' (JNumber (Finite 4096))) = Finite 4096
   \<and> readMaxTsServerMemory
       (globalSetting ''typescript.tsserver.maxTsServerMemory'' (JNumber (Finite (6001 / 2))))
     = Finite 3072
   \<and> readMaxTsServerMemory
       (globalSetting ''typescript.tsserver.maxTsServerMemory'' (JString ''3000'')) = Finite 3072
   \<and> absent emptyConfiguration ''typescript.tsserver.maxTsServerMemory''
   \<and> readMaxTsServerMemory emptyConfiguration = Finite 3072
   \<and> readMaxTsServerMemory
       (globalSetting ''typescript.tsserver.maxTsServerMemory''
          (JNumber (Finite 9007199254740991))) = Finite 9007199254740991"
proof -
  let ?k = "''typescript.tsserver.maxTsServerMemory''"
  have e: "effectiveValue (globalSetting ?k v) ?k = v" for v
    by (cases "v = JUndefined") (simp_all add: provider_defs fixture_defs)
  have a: "readMaxTsServerMemory (globalSetting ?k (JNumber (Finite 50))) = Finite 128"
    using readMaxTsServerMemory_spec [of "globalSetting ?k (JNumber (Finite 50))",
        THEN conjunct1, rule_format, of 50] e
    by simp
  have b: "readMaxTsServerMemory (globalSetting ?k (JNumber (Finite 4096))) = Finite 4096"
    using readMaxTsServerMemory_spec [of "globalSetting ?k (JNumber (Finite 4096))",
        THEN conjunct2, THEN conjunct2, THEN conjunct2, THEN conjunct2, rule_format, of 4096] e
    by simp
  have frac: "\<nexists>n::int. \<bar>n\<bar> \<le> 9007199254740991
      \<and> JNumber (Finite (6001 / 2)) = JNumber (Finite (of_int n))"
    using isSafeInteger_iff [of "JNumber (Finite (6001 / 2))"] by simp
  have c: "readMaxTsServerMemory (globalSetting ?k (JNumber (Finite (6001 / 2)))) = Finite 3072"
    using readMaxTsServerMemory_spec [of "globalSetting ?k (JNumber (Finite (6001 / 2)))",
        THEN conjunct2, THEN conjunct1] e frac
    by simp
  have d: "readMaxTsServerMemory (globalSetting ?k (JString ''3000'')) = Finite 3072"
    using readMaxTsServerMemory_spec [of "globalSetting ?k (JString ''3000'')",
        THEN conjunct2, THEN conjunct1] e
    by simp
  have ab: "absent emptyConfiguration ?k"
    by (simp add: provider_defs fixture_defs)
  have f: "readMaxTsServerMemory emptyConfiguration = Finite 3072"
    using readMaxTsServerMemory_spec [of emptyConfiguration,
        THEN conjunct2, THEN conjunct2, THEN conjunct1] ab
    by simp
  have g: "readMaxTsServerMemory (globalSetting ?k (JNumber (Finite 9007199254740991)))
           = Finite 9007199254740991"
    using readMaxTsServerMemory_spec [of "globalSetting ?k (JNumber (Finite 9007199254740991))",
        THEN conjunct2, THEN conjunct2, THEN conjunct2, THEN conjunct2, rule_format,
        of 9007199254740991] e
    by simp
  show ?thesis using a b c d ab f g by simp
qed

subsection \<open>The log level\<close>

lemma toLowerChar_lower:
  assumes "d \<in> set ''abcdefghijklmnopqrstuvwxyz''"
  shows "toLowerChar d = d \<and> toLowerChar (toUpperChar d) = d"
proof -
  from assms have "d = CHR ''a'' \<or> d = CHR ''b'' \<or> d = CHR ''c'' \<or> d = CHR ''d'' \<or> d = CHR ''e''
    \<or> d = CHR ''f'' \<or> d = CHR ''g'' \<or> d = CHR ''h'' \<or> d = CHR ''i'' \<or> d = CHR ''j''
    \<or> d = CHR ''k'' \<or> d = CHR ''l'' \<or> d = CHR ''m'' \<or> d = CHR ''n'' \<or> d = CHR ''o''
    \<or> d = CHR ''p'' \<or> d = CHR ''q'' \<or> d = CHR ''r'' \<or> d = CHR ''s'' \<or> d = CHR ''t''
    \<or> d = CHR ''u'' \<or> d = CHR ''v'' \<or> d = CHR ''w'' \<or> d = CHR ''x'' \<or> d = CHR ''y''
    \<or> d = CHR ''z''"
    by simp
  then show ?thesis
    by (elim disjE) (simp_all add: toLowerChar_def toUpperChar_def)
qed

lemma toLowerChar_letter:
  assumes "d \<in> set ''abcdefghijklmnopqrstuvwxyz''" and "c = d \<or> c = toUpperChar d"
  shows "toLowerChar c = d"
  using toLowerChar_lower [OF assms(1)] assms(2) by blast

lemma toLowerCase_inAnyLetterCase:
  assumes "inAnyLetterCase s name" and "set name \<subseteq> set ''abcdefghijklmnopqrstuvwxyz''"
  shows "toLowerCase s = name"
proof -
  have len: "length s = length name"
    and nth: "\<And>i. i < length s \<Longrightarrow> s ! i = name ! i \<or> s ! i = toUpperChar (name ! i)"
    using assms(1) unfolding inAnyLetterCase_def list_all2_conv_all_nth by blast+
  have "toLowerChar (s ! i) = name ! i" if "i < length s" for i
  proof -
    from that len have "name ! i \<in> set name" by simp
    with assms(2) have "name ! i \<in> set ''abcdefghijklmnopqrstuvwxyz''" by blast
    then show ?thesis using nth [OF that] by (rule toLowerChar_letter)
  qed
  then show ?thesis
    unfolding toLowerCase_def using len by (simp add: list_eq_iff_nth_eq)
qed

lemma fromString_String:
  "fromString (JString s) =
     (if toLowerCase s = ''normal'' then Inr Normal
      else if toLowerCase s = ''terse'' then Inr Terse
      else if toLowerCase s = ''verbose'' then Inr Verbose
      else Inr Off)"
proof (cases "s = []")
  case True
  then show ?thesis by (simp add: fromString_def toLowerCase_def)
next
  case False
  then show ?thesis by (simp add: fromString_def Let_def)
qed

text \<open>
  C6. For each of the four level names, written in any letter case, \<open>fromString\<close> followed
  by \<open>toString\<close> gives the name in lower case. A string whose lower-case form is none of
  \<open>normal\<close>, \<open>terse\<close> and \<open>verbose\<close> resolves to \<open>Off\<close>, a stored string is resolved by
  \<open>fromString\<close>, and an absent setting resolves to \<open>Off\<close>.
\<close>

theorem logLevel_roundtrip:
  "(name \<in> {''off'', ''normal'', ''terse'', ''verbose''} \<and> inAnyLetterCase s name
      \<longrightarrow> (\<exists>level. fromString (JString s) = Inr level \<and> toString level = name))
   \<and> (toLowerCase s \<notin> {''normal'', ''terse'', ''verbose''}
      \<longrightarrow> fromString (JString s) = Inr Off)
   \<and> (effectiveValue c ''typescript.tsserver.log'' = JString s
      \<longrightarrow> readTsServerLogLevel c = fromString (JString s))
   \<and> (absent c ''typescript.tsserver.log'' \<longrightarrow> readTsServerLogLevel c = Inr Off)"
proof (intro conjI impI)
  assume h: "name \<in> {''off'', ''normal'', ''terse'', ''verbose''} \<and> inAnyLetterCase s name"
  then have "set name \<subseteq> set ''abcdefghijklmnopqrstuvwxyz''" by auto
  with h have low: "toLowerCase s = name"
    using toLowerCase_inAnyLetterCase by blast
  from h have "name = ''off'' \<or> name = ''normal'' \<or> name = ''terse'' \<or> name = ''verbose''"
    by simp
  then show "\<exists>level. fromString (JString s) = Inr level \<and> toString level = name"
    using low by (auto simp: fromString_String)
next
  assume "toLowerCase s \<notin> {''normal'', ''terse'', ''verbose''}"
  then show "fromString (JString s) = Inr Off"
    by (simp add: fromString_String)
next
  assume "effectiveValue c ''typescript.tsserver.log'' = JString s"
  then show "readTsServerLogLevel c = fromString (JString s)"
    by (simp add: readTsServerLogLevel_def get_or_def)
next
  assume "absent c ''typescript.tsserver.log''"
  then have "effectiveValue c ''typescript.tsserver.log'' = JUndefined"
    by (rule absent_effectiveValue)
  then have "readTsServerLogLevel c = fromString (JString ''off'')"
    by (simp add: readTsServerLogLevel_def get_or_def)
  then show "readTsServerLogLevel c = Inr Off"
    by (simp add: fromString_String toLowerCase_def toLowerChar_def)
qed

theorem logLevel_roundtrip_witness:
  "inAnyLetterCase ''VerBOSE'' ''verbose''
   \<and> (\<exists>level. fromString (JString ''VerBOSE'') = Inr level \<and> toString level = ''verbose'')
   \<and> toLowerCase ''Loud'' \<notin> {''normal'', ''terse'', ''verbose''}
   \<and> fromString (JString ''Loud'') = Inr Off
   \<and> readTsServerLogLevel (globalSetting ''typescript.tsserver.log'' (JString ''TERSE''))
     = fromString (JString ''TERSE'')
   \<and> absent emptyConfiguration ''typescript.tsserver.log''
   \<and> readTsServerLogLevel emptyConfiguration = Inr Off"
proof -
  have a: "inAnyLetterCase ''VerBOSE'' ''verbose''"
    by (simp add: inAnyLetterCase_def toUpperChar_def)
  have b: "toLowerCase ''Loud'' \<notin> {''normal'', ''terse'', ''verbose''}"
    by (simp add: toLowerCase_def toLowerChar_def)
  have c: "effectiveValue (globalSetting ''typescript.tsserver.log'' (JString ''TERSE''))
             ''typescript.tsserver.log'' = JString ''TERSE''"
    by (simp add: provider_defs fixture_defs)
  have d: "absent emptyConfiguration ''typescript.tsserver.log''"
    by (simp add: provider_defs fixture_defs)
  show ?thesis
    using a b c d
      logLevel_roundtrip [of "''verbose''" "''VerBOSE''" emptyConfiguration]
      logLevel_roundtrip [of "''off''" "''Loud''"
        "globalSetting ''typescript.tsserver.log'' (JString ''TERSE'')"]
      logLevel_roundtrip [of "''off''" "''TERSE''"
        "globalSetting ''typescript.tsserver.log'' (JString ''TERSE'')"]
    by simp
qed

text \<open>
  C8. \<open>TsServerLogLevel.fromString\<close> raises nothing on the degenerate inputs: called with
  null, with undefined or with the empty string it returns \<open>Off\<close>, because the falsy guard
  skips the lower-case conversion and the switch takes its default branch.
\<close>

theorem fromString_degenerate_Off:
  "fromString JNull = Inr Off \<and> fromString JUndefined = Inr Off
   \<and> fromString (JString []) = Inr Off"
  by (simp add: fromString_def)

subsection \<open>The tsdk paths\<close>

lemma extractGlobalTsdk_scope:
  "extractGlobalTsdk p c =
     (case scopeValue (globalValues c) ''typescript.tsdk'' of
        JString s \<Rightarrow> Some (fixPathPrefixes p s)
      | _ \<Rightarrow> None)"
  by (simp add: extractGlobalTsdk_def inspect_def)

lemma extractLocalTsdk_scope:
  "extractLocalTsdk p c =
     (case scopeValue (workspaceValues c) ''typescript.tsdk'' of
        JString s \<Rightarrow> Some (fixPathPrefixes p s)
      | _ \<Rightarrow> None)"
  by (simp add: extractLocalTsdk_def inspect_def)

lemma fixPathPrefixes_home:
  "startsWith v (''~'' @ path_sep p)
   \<Longrightarrow> fixPathPrefixes p v
       = path_join p (os_homedir p) (drop (length (''~'' @ path_sep p)) v)"
  by (simp add: fixPathPrefixes_def slice_def)






lemma splitSegments_plain: "CHR ''/'' \<notin> set seg \<Longrightarrow> splitSegments seg = [seg]"
  by (induction seg) auto

lemma splitSegments_append:
  "CHR ''/'' \<notin> set seg \<Longrightarrow> splitSegments (seg @ ''/'' @ rest) = seg # splitSegments rest"
  by (induction seg) auto

lemma splitSegments_joinSegments:
  "segs \<noteq> [] \<Longrightarrow> list_all plainSegment segs \<Longrightarrow> splitSegments (joinSegments segs) = segs"
proof (induction segs rule: joinSegments.induct)
  case 1
  then show ?case by simp
next
  case (2 seg)
  then show ?case by (simp add: plainSegment_def splitSegments_plain)
next
  case (3 seg s segs)
  then have "CHR ''/'' \<notin> set seg" by (simp add: plainSegment_def)
  then have "splitSegments (joinSegments (seg # s # segs))
             = seg # splitSegments (joinSegments (s # segs))"
    using splitSegments_append [of seg "joinSegments (s # segs)"] by simp
  then show ?case using 3 by simp
qed

lemma normalizeSegments_plain:
  "list_all plainSegment segs \<Longrightarrow> normalizeSegments allowAboveRoot res segs = rev res @ segs"
  by (induction segs arbitrary: res) (auto simp: plainSegment_def)

lemma joinSegments_empty: "list_all plainSegment segs \<Longrightarrow> joinSegments segs = [] \<longleftrightarrow> segs = []"
  by (induction segs rule: joinSegments.induct) (auto simp: plainSegment_def)

lemma last_joinSegments:
  "segs \<noteq> [] \<Longrightarrow> list_all plainSegment segs \<Longrightarrow> last (joinSegments segs) \<noteq> CHR ''/''"
proof (induction segs rule: joinSegments.induct)
  case 1
  then show ?case by simp
next
  case (2 seg)
  then have "seg \<noteq> []" and "CHR ''/'' \<notin> set seg" by (simp_all add: plainSegment_def)
  then show ?case using last_in_set [of seg] by (auto simp del: last_in_set)
next
  case (3 seg s segs)
  then have "joinSegments (s # segs) \<noteq> []"
    using joinSegments_empty [of "s # segs"] by simp
  then show ?case using 3 by simp
qed

lemma posix_normalize_absolutePath:
  assumes "list_all plainSegment segs"
  shows "posix_normalize (absolutePath segs) = absolutePath segs"
proof (cases "segs = []")
  case True
  then show ?thesis
    by (simp add: absolutePath_def posix_normalize_def isAbsolute_def)
next
  case False
  let ?body = "joinSegments segs"
  have ne: "?body \<noteq> []" using False assms joinSegments_empty by blast
  have split: "splitSegments (absolutePath segs) = [] # segs"
    using splitSegments_joinSegments [OF False assms] by (simp add: absolutePath_def)
  have norm: "normalizeSegments False [] ([] # segs) = segs"
    using normalizeSegments_plain [OF assms, of False "[]"] by simp
  have last: "last (absolutePath segs) \<noteq> CHR ''/''"
    using last_joinSegments [OF False assms] ne by (simp add: absolutePath_def)
  have abs: "isAbsolute (absolutePath segs)"
    by (simp add: absolutePath_def isAbsolute_def)
  show ?thesis
    using ne split norm last abs
    by (simp add: posix_normalize_def Let_def) (simp add: absolutePath_def)
qed

lemma posix_join_absolutePath_empty:
  "list_all plainSegment segs \<Longrightarrow> posix_join (absolutePath segs) [] = absolutePath segs"
  using posix_normalize_absolutePath [of segs]
  by (simp add: posix_join_def) (simp add: absolutePath_def)

lemmas posix_eval =
  fixPathPrefixes_def posix_def startsWith_def slice_def posix_join_def posix_normalize_def
  isAbsolute_def

text \<open>
  C4. \<open>globalTsdk\<close> is resolved from the global-scope value of \<open>typescript.tsdk\<close> alone and
  \<open>localTsdk\<close> from the workspace-scope value alone: two stores that agree on the one scope
  give the same field, whatever the other scopes and so the merged value hold. With only a
  workspace override, \<open>globalTsdk\<close> is null and \<open>localTsdk\<close> is the resolved workspace
  value; with no override in either scope both are null.
\<close>

theorem tsdk_scopes:
  "extractGlobalTsdk p c =
     (case scopeValue (globalValues c) ''typescript.tsdk'' of
        JString s \<Rightarrow> Some (fixPathPrefixes p s) | _ \<Rightarrow> None)
   \<and> extractLocalTsdk p c =
     (case scopeValue (workspaceValues c) ''typescript.tsdk'' of
        JString s \<Rightarrow> Some (fixPathPrefixes p s) | _ \<Rightarrow> None)
   \<and> (globalValues c ''typescript.tsdk'' = globalValues c' ''typescript.tsdk''
      \<longrightarrow> extractGlobalTsdk p c = extractGlobalTsdk p c')
   \<and> (workspaceValues c ''typescript.tsdk'' = workspaceValues c' ''typescript.tsdk''
      \<longrightarrow> extractLocalTsdk p c = extractLocalTsdk p c')
   \<and> (globalValues c ''typescript.tsdk'' = None
      \<and> workspaceValues c ''typescript.tsdk'' = Some (JString s)
      \<longrightarrow> extractGlobalTsdk p c = None \<and> extractLocalTsdk p c = Some (fixPathPrefixes p s))
   \<and> (globalValues c ''typescript.tsdk'' = None \<and> workspaceValues c ''typescript.tsdk'' = None
      \<longrightarrow> extractGlobalTsdk p c = None \<and> extractLocalTsdk p c = None)"
proof (intro conjI impI)
  show "extractGlobalTsdk p c =
     (case scopeValue (globalValues c) ''typescript.tsdk'' of
        JString s \<Rightarrow> Some (fixPathPrefixes p s) | _ \<Rightarrow> None)"
    by (rule extractGlobalTsdk_scope)
  show "extractLocalTsdk p c =
     (case scopeValue (workspaceValues c) ''typescript.tsdk'' of
        JString s \<Rightarrow> Some (fixPathPrefixes p s) | _ \<Rightarrow> None)"
    by (rule extractLocalTsdk_scope)
next
  assume "globalValues c ''typescript.tsdk'' = globalValues c' ''typescript.tsdk''"
  then show "extractGlobalTsdk p c = extractGlobalTsdk p c'"
    by (simp add: extractGlobalTsdk_scope scopeValue_def)
next
  assume "workspaceValues c ''typescript.tsdk'' = workspaceValues c' ''typescript.tsdk''"
  then show "extractLocalTsdk p c = extractLocalTsdk p c'"
    by (simp add: extractLocalTsdk_scope scopeValue_def)
next
  assume h: "globalValues c ''typescript.tsdk'' = None
    \<and> workspaceValues c ''typescript.tsdk'' = Some (JString s)"
  then show "extractGlobalTsdk p c = None"
    by (simp add: extractGlobalTsdk_scope scopeValue_def)
  from h show "extractLocalTsdk p c = Some (fixPathPrefixes p s)"
    by (simp add: extractLocalTsdk_scope scopeValue_def)
next
  assume h: "globalValues c ''typescript.tsdk'' = None
    \<and> workspaceValues c ''typescript.tsdk'' = None"
  then show "extractGlobalTsdk p c = None"
    by (simp add: extractGlobalTsdk_scope scopeValue_def)
  from h show "extractLocalTsdk p c = None"
    by (simp add: extractLocalTsdk_scope scopeValue_def)
qed

theorem tsdk_scopes_witness:
  "effectiveValue (workspaceSetting ''typescript.tsdk'' (JString ''~/ws/ts'')) ''typescript.tsdk''
     = JString ''~/ws/ts''
   \<and> extractGlobalTsdk (posix ''/home/u'')
       (workspaceSetting ''typescript.tsdk'' (JString ''~/ws/ts'')) = None
   \<and> extractLocalTsdk (posix ''/home/u'')
       (workspaceSetting ''typescript.tsdk'' (JString ''~/ws/ts'')) = Some ''/home/u/ws/ts''
   \<and> effectiveValue (defaultSetting ''typescript.tsdk'' (JString ''/default/ts''))
       ''typescript.tsdk'' = JString ''/default/ts''
   \<and> extractGlobalTsdk (posix ''/home/u'')
       (defaultSetting ''typescript.tsdk'' (JString ''/default/ts'')) = None
   \<and> extractLocalTsdk (posix ''/home/u'')
       (defaultSetting ''typescript.tsdk'' (JString ''/default/ts'')) = None
   \<and> extractGlobalTsdk (posix ''/home/u'')
       ((globalSetting ''typescript.tsdk'' (JString ''/g/ts''))
          \<lparr>workspaceValues := [''typescript.tsdk'' \<mapsto> JString ''/w/ts'']\<rparr>)
     = extractGlobalTsdk (posix ''/home/u'') (globalSetting ''typescript.tsdk'' (JString ''/g/ts''))"
proof -
  let ?k = "''typescript.tsdk''"
  let ?p = "posix ''/home/u''"
  let ?w = "workspaceSetting ?k (JString ''~/ws/ts'')"
  let ?d = "defaultSetting ?k (JString ''/default/ts'')"
  let ?g = "globalSetting ?k (JString ''/g/ts'')"
  let ?gw = "?g\<lparr>workspaceValues := [?k \<mapsto> JString ''/w/ts'']\<rparr>"
  have e1: "effectiveValue ?w ?k = JString ''~/ws/ts''"
    by (simp add: provider_defs fixture_defs)
  have e2: "effectiveValue ?d ?k = JString ''/default/ts''"
    by (simp add: provider_defs fixture_defs)
  have w: "globalValues ?w ?k = None \<and> workspaceValues ?w ?k = Some (JString ''~/ws/ts'')"
    by (simp add: fixture_defs)
  have d: "globalValues ?d ?k = None \<and> workspaceValues ?d ?k = None"
    by (simp add: fixture_defs)
  have g: "globalValues ?gw ?k = globalValues ?g ?k"
    by (simp add: fixture_defs)
  have fx: "fixPathPrefixes ?p ''~/ws/ts'' = ''/home/u/ws/ts''"
    by (simp add: posix_eval)
  have a: "extractGlobalTsdk ?p ?w = None \<and> extractLocalTsdk ?p ?w = Some ''/home/u/ws/ts''"
    using tsdk_scopes [of ?p ?w ?w "''~/ws/ts''",
        THEN conjunct2, THEN conjunct2, THEN conjunct2, THEN conjunct2, THEN conjunct1] w fx
    by simp
  have b: "extractGlobalTsdk ?p ?d = None \<and> extractLocalTsdk ?p ?d = None"
    using tsdk_scopes [of ?p ?d ?d "''x''",
        THEN conjunct2, THEN conjunct2, THEN conjunct2, THEN conjunct2, THEN conjunct2] d
    by simp
  have c: "extractGlobalTsdk ?p ?gw = extractGlobalTsdk ?p ?g"
    using tsdk_scopes [of ?p ?gw ?g "''x''", THEN conjunct2, THEN conjunct2, THEN conjunct1] g
    by simp
  show ?thesis using e1 e2 a b c by simp
qed

text \<open>
  C9. A global-scope or workspace-scope value of \<open>typescript.tsdk\<close> that is present and is
  not a string makes the field of that scope null, on every platform: the home prefix is
  not looked for and the platform's join is not consulted.
\<close>

theorem tsdk_not_a_string:
  "(globalValues c ''typescript.tsdk'' = Some v \<and> (\<forall>s. v \<noteq> JString s)
      \<longrightarrow> extractGlobalTsdk p c = None)
   \<and> (workspaceValues c ''typescript.tsdk'' = Some v \<and> (\<forall>s. v \<noteq> JString s)
      \<longrightarrow> extractLocalTsdk p c = None)"
proof (intro conjI impI)
  assume "globalValues c ''typescript.tsdk'' = Some v \<and> (\<forall>s. v \<noteq> JString s)"
  then show "extractGlobalTsdk p c = None"
    by (cases v) (simp_all add: extractGlobalTsdk_scope scopeValue_def)
next
  assume "workspaceValues c ''typescript.tsdk'' = Some v \<and> (\<forall>s. v \<noteq> JString s)"
  then show "extractLocalTsdk p c = None"
    by (cases v) (simp_all add: extractLocalTsdk_scope scopeValue_def)
qed

theorem tsdk_not_a_string_witness:
  "extractGlobalTsdk (posix ''/home/u'') (globalSetting ''typescript.tsdk'' (JNumber (Finite 5)))
     = None
   \<and> extractGlobalTsdk (posix ''/home/u'') (globalSetting ''typescript.tsdk'' (JBoolean True))
     = None
   \<and> extractLocalTsdk (posix ''/home/u'')
       (workspaceSetting ''typescript.tsdk'' (JObject [(''path'', JString ''~/ts'')])) = None
   \<and> extractLocalTsdk (posix ''/home/u'')
       (workspaceSetting ''typescript.tsdk'' (JArray [JString ''~/ts''])) = None"
proof -
  let ?k = "''typescript.tsdk''"
  let ?p = "posix ''/home/u''"
  have g: "globalValues (globalSetting ?k v) ?k = Some v" for v
    by (simp add: fixture_defs)
  have w: "workspaceValues (workspaceSetting ?k v) ?k = Some v" for v
    by (simp add: fixture_defs)
  have a: "extractGlobalTsdk ?p (globalSetting ?k (JNumber (Finite 5))) = None"
    using tsdk_not_a_string [of "globalSetting ?k (JNumber (Finite 5))" "JNumber (Finite 5)" ?p] g
    by simp
  have b: "extractGlobalTsdk ?p (globalSetting ?k (JBoolean True)) = None"
    using tsdk_not_a_string [of "globalSetting ?k (JBoolean True)" "JBoolean True" ?p] g
    by simp
  have c: "extractLocalTsdk ?p (workspaceSetting ?k (JObject [(''path'', JString ''~/ts'')])) = None"
    using tsdk_not_a_string [of "workspaceSetting ?k (JObject [(''path'', JString ''~/ts'')])"
        "JObject [(''path'', JString ''~/ts'')]" ?p] w
    by simp
  have d: "extractLocalTsdk ?p (workspaceSetting ?k (JArray [JString ''~/ts''])) = None"
    using tsdk_not_a_string [of "workspaceSetting ?k (JArray [JString ''~/ts''])"
        "JArray [JString ''~/ts'']" ?p] w
    by simp
  show ?thesis using a b c d by simp
qed




lemma posix_fixPathPrefixes_shorthand:
  "fixPathPrefixes (posix home) ''~/'' = (if home = [] then ''.'' else posix_normalize home)"
proof -
  have "startsWith ''~/'' (''~'' @ path_sep (posix home))"
    by (simp add: startsWith_def posix_def)
  then have "fixPathPrefixes (posix home) ''~/'' = posix_join home []"
    using fixPathPrefixes_home [of "''~/''" "posix home"] by (simp add: posix_def)
  then show ?thesis by (simp add: posix_join_def)
qed

text \<open>
  C10, as the spec states it, fails where the home directory is not written in normal
  form: the join normalises it. With the home directory \<open>/home//u\<close> the value \<open>~/\<close>
  resolves to \<open>/home/u\<close>, which is not the home-directory path itself.
\<close>

theorem home_shorthand_alone_counterexample:
  "fixPathPrefixes (posix ''/home//u'') ''~/'' = ''/home/u''
   \<and> fixPathPrefixes (posix ''/home//u'') ''~/'' \<noteq> os_homedir (posix ''/home//u'')"
  by (simp add: posix_eval)

text \<open>
  C10, amended. The tsdk value that is the home shorthand alone, \<open>~\<close> followed by the
  separator and nothing else, resolves to the platform's join of the home directory and
  the empty remainder. On POSIX that is the home directory in normal form (\<open>.\<close> for the
  empty home directory); it is the home-directory path itself whenever that path is
  already in normal form, \<open>/s1/.../sn\<close> with plain segments, or \<open>/\<close>.
\<close>

theorem home_shorthand_alone:
  "fixPathPrefixes p (''~'' @ path_sep p) = path_join p (os_homedir p) []
   \<and> fixPathPrefixes (posix home) ''~/'' = (if home = [] then ''.'' else posix_normalize home)
   \<and> (list_all plainSegment segs
      \<longrightarrow> fixPathPrefixes (posix (absolutePath segs)) ''~/'' = absolutePath segs)"
proof (intro conjI impI)
  have "startsWith (''~'' @ path_sep p) (''~'' @ path_sep p)"
    by (simp add: startsWith_def)
  then show "fixPathPrefixes p (''~'' @ path_sep p) = path_join p (os_homedir p) []"
    using fixPathPrefixes_home [of "''~'' @ path_sep p" p] by simp
next
  show "fixPathPrefixes (posix home) ''~/'' = (if home = [] then ''.'' else posix_normalize home)"
    by (rule posix_fixPathPrefixes_shorthand)
next
  assume plain: "list_all plainSegment segs"
  have "absolutePath segs \<noteq> []" by (simp add: absolutePath_def)
  then have "fixPathPrefixes (posix (absolutePath segs)) ''~/''
             = posix_normalize (absolutePath segs)"
    using posix_fixPathPrefixes_shorthand [of "absolutePath segs"] by simp
  then show "fixPathPrefixes (posix (absolutePath segs)) ''~/'' = absolutePath segs"
    using posix_normalize_absolutePath [OF plain] by simp
qed

theorem home_shorthand_alone_witness:
  "list_all plainSegment [''home'', ''u'']
   \<and> absolutePath [''home'', ''u''] = ''/home/u''
   \<and> fixPathPrefixes (posix ''/home/u'') ''~/'' = ''/home/u''
   \<and> fixPathPrefixes (posix ''/home/./u/../v'') ''~/'' = ''/home/v''"
proof -
  have plain: "list_all plainSegment [''home'', ''u'']"
    by (simp add: plainSegment_def)
  have path: "absolutePath [''home'', ''u''] = ''/home/u''"
    by (simp add: absolutePath_def)
  have "fixPathPrefixes (posix (absolutePath [''home'', ''u''])) ''~/''
        = absolutePath [''home'', ''u'']"
    using home_shorthand_alone [of "posix ''/home/u''" "''/home/u''" "[''home'', ''u'']",
        THEN conjunct2, THEN conjunct2] plain
    by simp
  moreover have "fixPathPrefixes (posix ''/home/./u/../v'') ''~/'' = ''/home/v''"
    using home_shorthand_alone [of "posix ''/home/u''" "''/home/./u/../v''" "[]",
        THEN conjunct2, THEN conjunct1]
    by (simp add: posix_normalize_def isAbsolute_def)
  ultimately show ?thesis using plain path by simp
qed

subsection \<open>Equality of sequences and of structured values\<close>

lemma arrays_equals_nth:
  "arrays_equals f a b \<longleftrightarrow> (length a = length b \<and> (\<forall>i < length a. f (a ! i) (b ! i)))"
proof (cases "length a = length b")
  case True
  have "list_all (\<lambda>(x, y). f x y) (zip a b) \<longleftrightarrow> (\<forall>i < length a. f (a ! i) (b ! i))"
  proof
    assume h: "list_all (\<lambda>(x, y). f x y) (zip a b)"
    show "\<forall>i < length a. f (a ! i) (b ! i)"
    proof (intro allI impI)
      fix i assume "i < length a"
      then have "(a ! i, b ! i) \<in> set (zip a b)"
        using True by (auto simp: set_zip)
      with h show "f (a ! i) (b ! i)" by (auto simp: list_all_iff)
    qed
  next
    assume "\<forall>i < length a. f (a ! i) (b ! i)"
    then show "list_all (\<lambda>(x, y). f x y) (zip a b)"
      using True by (auto simp: list_all_iff set_zip)
  qed
  then show ?thesis using True by (simp add: arrays_equals_def)
next
  case False
  then show ?thesis by (simp add: arrays_equals_def)
qed

lemma arrays_equals_eq: "arrays_equals (=) a b \<longleftrightarrow> a = b"
  by (simp add: arrays_equals_nth list_eq_iff_nth_eq)

lemma sort_keys_eq:
  fixes ks ks' :: "string list"
  assumes "distinct ks" and "distinct ks'"
  shows "sort ks = sort ks' \<longleftrightarrow> set ks = set ks'"
proof
  assume "sort ks = sort ks'"
  then have "set (sort ks) = set (sort ks')" by simp
  then show "set ks = set ks'" by simp
next
  assume "set ks = set ks'"
  then have "mset ks = mset ks'"
    using assms by (simp add: set_eq_iff_mset_eq_distinct)
  then have "mset (sort ks') = mset ks" by simp
  then show "sort ks = sort ks'"
    by (rule properties_for_sort) simp
qed

lemma property_member:
  "key \<in> set (map fst kvs) \<Longrightarrow> (key, property kvs key) \<in> set kvs"
proof -
  assume "key \<in> set (map fst kvs)"
  then obtain v where "map_of kvs key = Some v"
    by (metis map_of_eq_None_iff not_Some_eq set_map)
  then show ?thesis
    by (simp add: property_def map_of_SomeD)
qed

lemma property_distinct:
  "distinct (map fst kvs) \<Longrightarrow> (key, v) \<in> set kvs \<Longrightarrow> property kvs key = v"
  by (simp add: property_def)



lemma wf_json_property:
  assumes "wf_json (JObject kvs)" and "key \<in> set (map fst kvs)"
  shows "wf_json (property kvs key)"
proof -
  have "(key, property kvs key) \<in> set kvs"
    using assms(2) by (rule property_member)
  then show ?thesis
    using assms(1) by (auto simp: list_all_iff)
qed

lemma objects_equals_refl: "wf_json v \<Longrightarrow> objects_equals v v"
proof (induction v)
  case (JArray xs)
  have "objects_equals (xs ! i) (xs ! i)" if "i < length xs" for i
  proof -
    have "xs ! i \<in> set xs" using that by simp
    moreover from this have "wf_json (xs ! i)"
      using JArray.prems by (simp add: list_all_iff)
    ultimately show ?thesis by (rule JArray.IH)
  qed
  then show ?case by (simp add: arrays_equals_nth)
next
  case (JObject kvs)
  have "objects_equals (property kvs key) (property kvs key)"
    if "key \<in> set (map fst kvs)" for key
  proof -
    have mem: "(key, property kvs key) \<in> set kvs"
      using that by (rule property_member)
    have "wf_json (property kvs key)"
      using JObject.prems that by (rule wf_json_property)
    with mem show ?thesis
      using JObject.IH [of "(key, property kvs key)" "property kvs key"] by simp
  qed
  then show ?case
    by (simp add: arrays_equals_eq list_all_iff)
qed simp_all

lemma strictEquals_eq:
  assumes "wf_json a"
  shows "strictEquals a b \<longleftrightarrow> (a = b \<and> (\<forall>xs. a \<noteq> JArray xs) \<and> (\<forall>kvs. a \<noteq> JObject kvs))"
  using assms by (cases a; cases b) auto

text \<open>
  On well-formed values the deep comparison decides the equality of structured values that
  disregards the order of the entries.
\<close>

lemma objects_equals_json_equiv:
  "wf_json a \<Longrightarrow> wf_json b \<Longrightarrow> objects_equals a b = json_equiv a b"
proof (induction a b rule: objects_equals.induct)
  case (1 xs ys)
  have step: "objects_equals (xs ! i) (ys ! i) = json_equiv (xs ! i) (ys ! i)"
    if "i < length xs" "length xs = length ys" for i
  proof -
    have "xs ! i \<in> set xs" and "ys ! i \<in> set ys" using that by simp_all
    moreover from this have "wf_json (xs ! i)" and "wf_json (ys ! i)"
      using "1.prems" by (simp_all add: list_all_iff)
    ultimately show ?thesis by (rule "1.IH")
  qed
  show ?case
  proof (cases "length xs = length ys")
    case True
    then show ?thesis
      using step by (simp add: arrays_equals_nth list_all2_conv_all_nth)
  next
    case False
    then show ?thesis
      by (auto simp: arrays_equals_nth dest: list_all2_lengthD)
  qed
next
  case (2 kvs kvs')
  let ?ks = "map fst kvs" and ?ks' = "map fst kvs'"
  have d: "distinct ?ks" and d': "distinct ?ks'"
    using "2.prems" by simp_all
  show ?case
  proof (cases "set ?ks = set ?ks'")
    case False
    then have "sort ?ks \<noteq> sort ?ks'"
      using sort_keys_eq [OF d d'] by simp
    then show ?thesis
      using False by (simp add: arrays_equals_eq)
  next
    case True
    then have sorted_eq: "sort ?ks = sort ?ks'"
      using sort_keys_eq [OF d d'] by simp
    have step: "objects_equals (property kvs key) (property kvs' key)
                = json_equiv (property kvs key) (property kvs' key)"
      if "key \<in> set ?ks" for key
    proof -
      have "key \<in> set (sort ?ks)" using that by simp
      moreover have "\<not> \<not> arrays_equals (=) (sort ?ks) (sort ?ks')"
        using sorted_eq by (simp add: arrays_equals_eq)
      moreover have "wf_json (property kvs key)"
        using "2.prems"(1) that by (rule wf_json_property)
      moreover have "wf_json (property kvs' key)"
      proof -
        have "key \<in> set ?ks'" using that True by simp
        with "2.prems"(2) show ?thesis by (rule wf_json_property)
      qed
      ultimately show ?thesis
        using "2.IH" [OF refl refl] by blast
    qed
    have middle: "(\<forall>key \<in> set ?ks. json_equiv (property kvs key) (property kvs' key))
          \<longleftrightarrow> (\<forall>(k, v) \<in> set kvs. \<forall>(k', v') \<in> set kvs'. k = k' \<longrightarrow> json_equiv v v')"
    proof
      assume h: "\<forall>key \<in> set ?ks. json_equiv (property kvs key) (property kvs' key)"
      show "\<forall>(k, v) \<in> set kvs. \<forall>(k', v') \<in> set kvs'. k = k' \<longrightarrow> json_equiv v v'"
      proof (clarify)
        fix k v v'
        assume m: "(k, v) \<in> set kvs" and m': "(k, v') \<in> set kvs'"
        then have "property kvs k = v" and "property kvs' k = v'"
          using d d' by (simp_all add: property_distinct)
        moreover have "k \<in> set ?ks" using m by force
        ultimately show "json_equiv v v'" using h by auto
      qed
    next
      assume h: "\<forall>(k, v) \<in> set kvs. \<forall>(k', v') \<in> set kvs'. k = k' \<longrightarrow> json_equiv v v'"
      show "\<forall>key \<in> set ?ks. json_equiv (property kvs key) (property kvs' key)"
      proof
        fix key assume k: "key \<in> set ?ks"
        then have "(key, property kvs key) \<in> set kvs"
          by (rule property_member)
        moreover have "(key, property kvs' key) \<in> set kvs'"
        proof -
          have "key \<in> set ?ks'" using k True by simp
          then show ?thesis by (rule property_member)
        qed
        ultimately show "json_equiv (property kvs key) (property kvs' key)"
          using h by blast
      qed
    qed
    have "objects_equals (JObject kvs) (JObject kvs')
          \<longleftrightarrow> list_all (\<lambda>key. objects_equals (property kvs key) (property kvs' key))
                (sort ?ks)"
      using sorted_eq by (simp add: arrays_equals_eq)
    also have "\<dots> \<longleftrightarrow> (\<forall>key \<in> set ?ks.
        objects_equals (property kvs key) (property kvs' key))"
      by (simp only: list_all_iff set_sort)
    also have "\<dots> \<longleftrightarrow> (\<forall>key \<in> set ?ks. json_equiv (property kvs key) (property kvs' key))"
      using step by blast
    also have "\<dots> \<longleftrightarrow> (\<forall>(k, v) \<in> set kvs. \<forall>(k', v') \<in> set kvs'. k = k' \<longrightarrow> json_equiv v v')"
      by (fact middle)
    also have "\<dots> \<longleftrightarrow> json_equiv (JObject kvs) (JObject kvs')"
      by (simp only: json_equiv.simps True simp_thms)
    finally show ?thesis .
  qed
qed (auto simp: strictEquals_eq)

lemma json_equiv_refl: "wf_json v \<Longrightarrow> json_equiv v v"
  using objects_equals_refl objects_equals_json_equiv by blast

lemma json_equiv_reordered:
  assumes "wf_json (JObject kvs)" and "distinct (map fst kvs')" and "set kvs' = set kvs"
  shows "json_equiv (JObject kvs) (JObject kvs')"
proof -
  have d: "distinct (map fst kvs)" using assms(1) by simp
  have "json_equiv v v'" if "(k, v) \<in> set kvs" and "(k, v') \<in> set kvs'" for k v v'
  proof -
    from that(2) assms(3) have "(k, v') \<in> set kvs" by simp
    with that(1) d have "v = v'"
      by (meson eq_key_imp_eq_value)
    moreover have "wf_json v"
      using assms(1) that(1) by (auto simp: list_all_iff)
    ultimately show ?thesis using json_equiv_refl by simp
  qed
  moreover have "set (map fst kvs) = set (map fst kvs')"
    using assms(3) by simp
  ultimately show ?thesis by auto
qed

subsection \<open>The constructor\<close>






lemmas reader_defs =
  extractLocale_def readNpmLocation_def readTsServerLogLevel_def readTsServerPluginPaths_def
  readCheckJs_def readExperimentalDecorators_def readImplicitStrictNullChecks_def
  readImplicitStrictFunctionTypes_def readDisableAutomaticTypeAcquisition_def
  readEnableProjectDiagnostics_def readEnablePromptUseWorkspaceTsdk_def readWatchOptions_def
  readIncludePackageJsonAutoImports_def readUseSeparateSyntaxServer_def
  readMaxTsServerMemory_def extractGlobalTsdk_def extractLocalTsdk_def

lemma effectiveValue_empty: "effectiveValue emptyConfiguration key = JUndefined"
  by (simp add: provider_defs fixture_defs)



lemma loadFromWorkspace_carries_stored_value:
  "map_sum id this_checkJs
     (loadFromWorkspace p
        (globalSetting ''javascript.implicitProjectConfig.checkJs'' (JString ''yes'')))
   = Inr (JString ''yes'')"
  by (simp add: loadFromWorkspace_def reader_defs provider_defs fixture_defs fromString_def
      toLowerCase_def toLowerChar_def)

lemma loadFromWorkspace_raises:
  "loadFromWorkspace p (globalSetting ''typescript.tsserver.log'' (JNumber (Finite 5)))
   = Inl TypeError"
  by (simp add: loadFromWorkspace_def readTsServerLogLevel_def provider_defs fixture_defs
      fromString_def)

subsection \<open>Equality of snapshots\<close>

lemma strictEqualsNumber_eq: "a \<noteq> NaN \<Longrightarrow> strictEqualsNumber a b \<longleftrightarrow> a = b"
  by (simp add: strictEqualsNumber_def)

lemma isEqualTo_fields:
  assumes "valid_snapshot a" and "valid_snapshot b"
  shows "isEqualTo a b \<longleftrightarrow>
     (tsLocale a = tsLocale b
      \<and> globalTsdk a = globalTsdk b
      \<and> localTsdk a = localTsdk b
      \<and> npmLocation a = npmLocation b
      \<and> tsServerLogLevel a = tsServerLogLevel b
      \<and> checkJs a = checkJs b
      \<and> experimentalDecorators a = experimentalDecorators b
      \<and> implicitStrictNullChecks a = implicitStrictNullChecks b
      \<and> implicitStrictFunctionTypes a = implicitStrictFunctionTypes b
      \<and> disableAutomaticTypeAcquisition a = disableAutomaticTypeAcquisition b
      \<and> tsServerPluginPaths a = tsServerPluginPaths b
      \<and> separateSyntaxServer a = separateSyntaxServer b
      \<and> enableProjectDiagnostics a = enableProjectDiagnostics b
      \<and> maxTsServerMemory a = maxTsServerMemory b
      \<and> json_equiv (watchOptions a) (watchOptions b)
      \<and> enablePromptUseWorkspaceTsdk a = enablePromptUseWorkspaceTsdk b
      \<and> includePackageJsonAutoImports a = includePackageJsonAutoImports b)"
proof -
  have "strictEqualsNumber (maxTsServerMemory a) (maxTsServerMemory b)
        \<longleftrightarrow> maxTsServerMemory a = maxTsServerMemory b"
    using assms(1) by (simp add: valid_snapshot_def strictEqualsNumber_eq)
  moreover have "objects_equals (watchOptions a) (watchOptions b)
        \<longleftrightarrow> json_equiv (watchOptions a) (watchOptions b)"
    using assms by (simp add: valid_snapshot_def objects_equals_json_equiv)
  moreover have "arrays_equals (=) (tsServerPluginPaths a) (tsServerPluginPaths b)
        \<longleftrightarrow> tsServerPluginPaths a = tsServerPluginPaths b"
    by (rule arrays_equals_eq)
  ultimately show ?thesis
    unfolding isEqualTo_def by blast
qed





text \<open>
  C1. For two snapshots, of well-formed watch options and a memory limit that is a number,
  as the constructor builds them, \<open>isEqualTo\<close> is true exactly when all 17 fields are
  equal: the fields of type string, null, boolean, number and enum by equality of the
  value, \<open>tsServerPluginPaths\<close> as sequences, element by element in order, and
  \<open>watchOptions\<close> as structured values whatever the order of the entries. Undefined watch
  options equal undefined watch options, and an object equals the object with the same
  entries in another order.
\<close>

theorem isEqualTo_iff_all_fields:
  "(valid_snapshot a \<and> valid_snapshot b \<longrightarrow>
      (isEqualTo a b \<longleftrightarrow>
         (tsLocale a = tsLocale b
          \<and> globalTsdk a = globalTsdk b
          \<and> localTsdk a = localTsdk b
          \<and> npmLocation a = npmLocation b
          \<and> tsServerLogLevel a = tsServerLogLevel b
          \<and> checkJs a = checkJs b
          \<and> experimentalDecorators a = experimentalDecorators b
          \<and> implicitStrictNullChecks a = implicitStrictNullChecks b
          \<and> implicitStrictFunctionTypes a = implicitStrictFunctionTypes b
          \<and> disableAutomaticTypeAcquisition a = disableAutomaticTypeAcquisition b
          \<and> tsServerPluginPaths a = tsServerPluginPaths b
          \<and> separateSyntaxServer a = separateSyntaxServer b
          \<and> enableProjectDiagnostics a = enableProjectDiagnostics b
          \<and> maxTsServerMemory a = maxTsServerMemory b
          \<and> json_equiv (watchOptions a) (watchOptions b)
          \<and> enablePromptUseWorkspaceTsdk a = enablePromptUseWorkspaceTsdk b
          \<and> includePackageJsonAutoImports a = includePackageJsonAutoImports b)))
   \<and> json_equiv JUndefined JUndefined
   \<and> (wf_json (JObject kvs) \<and> distinct (map fst kvs') \<and> set kvs' = set kvs
      \<longrightarrow> json_equiv (JObject kvs) (JObject kvs'))"
proof (intro conjI impI)
  assume "valid_snapshot a \<and> valid_snapshot b"
  then show "isEqualTo a b \<longleftrightarrow>
         (tsLocale a = tsLocale b
          \<and> globalTsdk a = globalTsdk b
          \<and> localTsdk a = localTsdk b
          \<and> npmLocation a = npmLocation b
          \<and> tsServerLogLevel a = tsServerLogLevel b
          \<and> checkJs a = checkJs b
          \<and> experimentalDecorators a = experimentalDecorators b
          \<and> implicitStrictNullChecks a = implicitStrictNullChecks b
          \<and> implicitStrictFunctionTypes a = implicitStrictFunctionTypes b
          \<and> disableAutomaticTypeAcquisition a = disableAutomaticTypeAcquisition b
          \<and> tsServerPluginPaths a = tsServerPluginPaths b
          \<and> separateSyntaxServer a = separateSyntaxServer b
          \<and> enableProjectDiagnostics a = enableProjectDiagnostics b
          \<and> maxTsServerMemory a = maxTsServerMemory b
          \<and> json_equiv (watchOptions a) (watchOptions b)
          \<and> enablePromptUseWorkspaceTsdk a = enablePromptUseWorkspaceTsdk b
          \<and> includePackageJsonAutoImports a = includePackageJsonAutoImports b)"
    using isEqualTo_fields by blast
next
  show "json_equiv JUndefined JUndefined" by simp
next
  assume "wf_json (JObject kvs) \<and> distinct (map fst kvs') \<and> set kvs' = set kvs"
  then show "json_equiv (JObject kvs) (JObject kvs')"
    using json_equiv_reordered by blast
qed

lemmas snapshot_eval =
  valid_snapshot_def defaultSnapshot_def exampleWatchOptions_def reorderedWatchOptions_def
  changedWatchOptions_def

theorem isEqualTo_iff_all_fields_witness:
  "valid_snapshot defaultSnapshot
   \<and> isEqualTo defaultSnapshot defaultSnapshot
   \<and> valid_snapshot (defaultSnapshot\<lparr>watchOptions := exampleWatchOptions\<rparr>)
   \<and> valid_snapshot (defaultSnapshot\<lparr>watchOptions := reorderedWatchOptions\<rparr>)
   \<and> isEqualTo (defaultSnapshot\<lparr>watchOptions := exampleWatchOptions\<rparr>)
       (defaultSnapshot\<lparr>watchOptions := reorderedWatchOptions\<rparr>)
   \<and> \<not> isEqualTo (defaultSnapshot\<lparr>watchOptions := exampleWatchOptions\<rparr>)
       (defaultSnapshot\<lparr>watchOptions := changedWatchOptions\<rparr>)
   \<and> \<not> isEqualTo (defaultSnapshot\<lparr>tsServerPluginPaths := [''a'', ''b'']\<rparr>)
       (defaultSnapshot\<lparr>tsServerPluginPaths := [''b'', ''a'']\<rparr>)
   \<and> json_equiv exampleWatchOptions reorderedWatchOptions"
proof -
  let ?d = defaultSnapshot
  let ?e = "defaultSnapshot\<lparr>watchOptions := exampleWatchOptions\<rparr>"
  let ?r = "defaultSnapshot\<lparr>watchOptions := reorderedWatchOptions\<rparr>"
  let ?c = "defaultSnapshot\<lparr>watchOptions := changedWatchOptions\<rparr>"
  let ?ab = "defaultSnapshot\<lparr>tsServerPluginPaths := [''a'', ''b'']\<rparr>"
  let ?ba = "defaultSnapshot\<lparr>tsServerPluginPaths := [''b'', ''a'']\<rparr>"
  have v: "valid_snapshot ?d" "valid_snapshot ?e" "valid_snapshot ?r" "valid_snapshot ?c"
    "valid_snapshot ?ab" "valid_snapshot ?ba"
    by (simp_all add: snapshot_eval)
  have je: "json_equiv exampleWatchOptions reorderedWatchOptions"
    by (auto simp: exampleWatchOptions_def reorderedWatchOptions_def)
  have nje: "\<not> json_equiv exampleWatchOptions changedWatchOptions"
    by (auto simp: exampleWatchOptions_def changedWatchOptions_def)
  have 1: "isEqualTo ?d ?d"
    using isEqualTo_iff_all_fields [of ?d ?d "[]" "[]", THEN conjunct1] v
    by (simp add: snapshot_eval)
  have 2: "isEqualTo ?e ?r"
    using isEqualTo_iff_all_fields [of ?e ?r "[]" "[]", THEN conjunct1] v je
    by simp
  have 3: "\<not> isEqualTo ?e ?c"
    using isEqualTo_iff_all_fields [of ?e ?c "[]" "[]", THEN conjunct1] v nje
    by simp
  have 4: "\<not> isEqualTo ?ab ?ba"
    using isEqualTo_iff_all_fields [of ?ab ?ba "[]" "[]", THEN conjunct1] v
    by (simp add: snapshot_eval)
  have 5: "json_equiv exampleWatchOptions reorderedWatchOptions"
    using isEqualTo_iff_all_fields [of ?d ?d
        "[(''watchFile'', JString ''useFsEvents''),
          (''excludeDirectories'', JArray [JString ''node_modules''])]"
        "[(''excludeDirectories'', JArray [JString ''node_modules'']),
          (''watchFile'', JString ''useFsEvents'')]",
        THEN conjunct2, THEN conjunct2]
    unfolding exampleWatchOptions_def reorderedWatchOptions_def
    by (simp add: insert_commute)
  show ?thesis using v 1 2 3 4 5 by simp
qed




end
